theory Spec2Isabelle
  imports Complex_Main
begin

section \<open>Values arriving in a request body\<close>

text \<open>
  The handlers of \<^verbatim>\<open>src/index.js\<close> read fields of \<^verbatim>\<open>req.body\<close>, which
  \<^verbatim>\<open>express.json()\<close> parsed from JSON. A field is therefore any JSON value, or
  \<^verbatim>\<open>undefined\<close> when it is missing. Objects and arrays are kept opaque: only their
  identity matters here (a \<^verbatim>\<open>Map\<close> compares keys by reference), so \<open>JObj\<close> carries a
  reference number. A number of the body is a real, a string is a \<open>string\<close>.
\<close>

datatype jsval =
    JUndefined
  | JNull
  | JBool bool
  | JNum real
  | JStr string
  | JObj nat

text \<open>JavaScript's \<^verbatim>\<open>!x\<close> is \<open>\<not> truthy x\<close> (JSON cannot produce \<^verbatim>\<open>NaN\<close>).\<close>

fun truthy :: "jsval \<Rightarrow> bool" where
  "truthy JUndefined = False"
| "truthy JNull = False"
| "truthy (JBool b) = b"
| "truthy (JNum x) = (x \<noteq> 0)"
| "truthy (JStr s) = (s \<noteq> [])"
| "truthy (JObj r) = True"

section \<open>Strings\<close>

text \<open>\<^verbatim>\<open>s.startsWith(p)\<close>\<close>

definition startsWith :: "string \<Rightarrow> string \<Rightarrow> bool" where
  "startsWith s p = (take (length p) s = p)"

text \<open>
  The recipient formatting that the three sending handlers share, written in each of them as
  \<^verbatim>\<open>to.startsWith('whatsapp:') ? to : `whatsapp:${to}`\<close>.
\<close>

definition formattedTo :: "string \<Rightarrow> string" where
  "formattedTo t = (if startsWith t ''whatsapp:'' then t else ''whatsapp:'' @ t)"

text \<open>
  \<^verbatim>\<open>Number.prototype.toString()\<close> on an integral number: the decimal digits, most
  significant first, with a minus sign for a negative number.
\<close>

definition digit_char :: "nat \<Rightarrow> char" where
  "digit_char d = char_of (48 + d)"

fun digits :: "nat \<Rightarrow> string" where
  "digits n = (if n < 10 then [digit_char n] else digits (n div 10) @ [digit_char (n mod 10)])"

declare digits.simps [simp del]

definition Number_toString :: "int \<Rightarrow> string" where
  "Number_toString i = (if i < 0 then CHR ''-'' # digits (nat (- i)) else digits (nat i))"

text \<open>Reading a decimal string back, to say which number a string denotes.\<close>

definition is_digit :: "char \<Rightarrow> bool" where
  "is_digit c = (48 \<le> (of_char c :: nat) \<and> (of_char c :: nat) \<le> 57)"

definition decimal_value :: "string \<Rightarrow> nat" where
  "decimal_value s = foldl (\<lambda>a c. 10 * a + ((of_char c :: nat) - 48)) 0 s"

section \<open>The verification-code store\<close>

text \<open>
  \<^verbatim>\<open>const verificationCodes = new Map()\<close> maps a phone number to
  \<^verbatim>\<open>{ code, expiresAt }\<close>. A JavaScript \<^verbatim>\<open>Map\<close> keeps its entries in insertion order;
  it is modelled as the list of its entries. \<open>Map_set\<close> replaces the value of an existing key
  where it stands and appends a new key; \<open>Map_delete\<close> removes the key's entry.
\<close>

record entry =
  code :: string
  expiresAt :: int

type_synonym store = "(jsval \<times> entry) list"

fun Map_get :: "'k \<Rightarrow> ('k \<times> 'v) list \<Rightarrow> 'v option" where
  "Map_get k [] = None"
| "Map_get k ((k', v) # m) = (if k' = k then Some v else Map_get k m)"

fun Map_set :: "'k \<Rightarrow> 'v \<Rightarrow> ('k \<times> 'v) list \<Rightarrow> ('k \<times> 'v) list" where
  "Map_set k v [] = [(k, v)]"
| "Map_set k v ((k', v') # m) = (if k' = k then (k, v) # m else (k', v') # Map_set k v m)"

fun Map_delete :: "'k \<Rightarrow> ('k \<times> 'v) list \<Rightarrow> ('k \<times> 'v) list" where
  "Map_delete k [] = []"
| "Map_delete k ((k', v) # m) = (if k' = k then m else (k', v) # Map_delete k m)"

definition Map_keys :: "('k \<times> 'v) list \<Rightarrow> 'k list" where
  "Map_keys m = map fst m"

subsection \<open>The periodic sweep\<close>

text \<open>
  \<^verbatim>\<open>for (const [phone, data] of verificationCodes.entries())
    if (data.expiresAt < now) verificationCodes.delete(phone);\<close>

  The loop visits the entries in order; the only mutation is the deletion of the entry being
  visited, which leaves the entries still to be visited as they were. The second argument of
  \<open>sweep_loop\<close> is the part of the iteration that is still ahead, the third the map.
\<close>

fun sweep_loop :: "int \<Rightarrow> (jsval \<times> entry) list \<Rightarrow> store \<Rightarrow> store" where
  "sweep_loop now [] s = s"
| "sweep_loop now ((phone, data) # ahead) s =
     sweep_loop now ahead (if expiresAt data < now then Map_delete phone s else s)"

definition sweep :: "int \<Rightarrow> store \<Rightarrow> store" where
  "sweep now s = sweep_loop now s s"

subsection \<open>Issuing a code\<close>

text \<open>
  JavaScript numbers are IEEE 754 binary64 values. A finite one is a real number, and each
  arithmetic operation returns the exact result rounded to the nearest binary64 value, ties
  to the even significand. \<open>bit_length n\<close> is the number of binary digits of \<open>n\<close>;
  \<open>binary_exponent x\<close> is, for \<open>x > 0\<close>, the \<open>e\<close> with \<open>2 ^ e \<le> x < 2 ^ (e + 1)\<close>; \<open>quantum x\<close>
  is the spacing of the binary64 values around \<open>x\<close> (53 significant bits, and \<open>2 ^ -1074\<close>
  in the subnormal range). Overflow to \<^verbatim>\<open>Infinity\<close> is left out: every number computed here
  is below \<open>2 ^ 20\<close>.
\<close>

fun bit_length :: "nat \<Rightarrow> nat" where
  "bit_length n = (if n = 0 then 0 else Suc (bit_length (n div 2)))"

declare bit_length.simps [simp del]

definition binary_exponent :: "real \<Rightarrow> int" where
  "binary_exponent x =
     (if 1 \<le> x then int (bit_length (nat \<lfloor>x\<rfloor>)) - 1
      else - int (bit_length (nat \<lceil>1 / x\<rceil> - 1)))"

definition quantum :: "real \<Rightarrow> real" where
  "quantum x = 2 powi (max (binary_exponent \<bar>x\<bar> - 52) (- 1074))"

text \<open>Rounding to the nearest integer, a tie going to the even one.\<close>

definition round_half_even :: "real \<Rightarrow> int" where
  "round_half_even z =
     (let f = \<lfloor>z\<rfloor> in
      if z - of_int f < 1 / 2 then f
      else if 1 / 2 < z - of_int f then f + 1
      else if even f then f else f + 1)"

text \<open>The binary64 value nearest to a real number.\<close>

definition round_binary64 :: "real \<Rightarrow> real" where
  "round_binary64 x =
     (if x = 0 then 0 else of_int (round_half_even (x / quantum x)) * quantum x)"

text \<open>A real number is a binary64 value when rounding leaves it as it is.\<close>

definition is_binary64 :: "real \<Rightarrow> bool" where
  "is_binary64 x = (round_binary64 x = x)"

text \<open>
  \<^verbatim>\<open>const code = Math.floor(100000 + Math.random() * 900000).toString();\<close>
  with \<open>r\<close> the binary64 value \<^verbatim>\<open>Math.random()\<close> returned. The product is rounded, then
  the sum is rounded; \<^verbatim>\<open>Math.floor\<close> of a binary64 value is exact.
\<close>

definition code_number :: "real \<Rightarrow> int" where
  "code_number r = \<lfloor>round_binary64 (100000 + round_binary64 (r * 900000))\<rfloor>"

definition generate_code :: "real \<Rightarrow> string" where
  "generate_code r = Number_toString (code_number r)"

text \<open>
  \<^verbatim>\<open>const expiresAt = Date.now() + 5 * 60 * 1000;
  verificationCodes.set(phoneNumber, { code, expiresAt });\<close>
  with \<open>now\<close> the value of \<^verbatim>\<open>Date.now()\<close> (milliseconds). A time value is an integer
  of magnitude at most 8.64e15, so this sum is an integer below \<open>2 ^ 53\<close> and binary64
  computes it exactly: it is modelled on \<open>int\<close>. The result is the code and the updated map.
\<close>

definition issue :: "jsval \<Rightarrow> real \<Rightarrow> int \<Rightarrow> store \<Rightarrow> string \<times> store" where
  "issue phoneNumber r now s =
     (let c = generate_code r;
          e = now + 5 * 60 * 1000
      in (c, Map_set phoneNumber \<lparr>code = c, expiresAt = e\<rparr> s))"

subsection \<open>Checking and consuming a code\<close>

datatype verify_result = CodeVerified | InvalidOrExpired | IncorrectCode

text \<open>
  Lines 91 to 104 of the verify-code handler: look the entry up, reject a missing or expired
  one, reject a code that differs (\<^verbatim>\<open>!==\<close>: the stored code is a string, so a supplied
  value of another type differs), otherwise delete the entry.
\<close>

definition verify :: "jsval \<Rightarrow> jsval \<Rightarrow> int \<Rightarrow> store \<Rightarrow> verify_result \<times> store" where
  "verify phoneNumber supplied now s =
     (case Map_get phoneNumber s of
        None \<Rightarrow> (InvalidOrExpired, s)
      | Some stored \<Rightarrow>
          if expiresAt stored < now then (InvalidOrExpired, s)
          else if JStr (code stored) \<noteq> supplied then (IncorrectCode, s)
          else (CodeVerified, Map_delete phoneNumber s))"

subsection \<open>Operations on the store, in sequence\<close>

text \<open>
  The map starts empty when the process starts and is then changed only by the send-code
  handler (\<open>issue\<close>), the verify-code handler (\<open>verify\<close>) and the timer (\<open>sweep\<close>). All
  three run to completion on the event loop before another one starts. An operation carries
  the values it reads from its environment: the random number and the clock.
\<close>

datatype operation =
    Issue jsval real int
  | Verify jsval jsval int
  | Sweep int

fun step :: "operation \<Rightarrow> store \<Rightarrow> store" where
  "step (Issue phoneNumber r now) s = snd (issue phoneNumber r now s)"
| "step (Verify phoneNumber supplied now) s = snd (verify phoneNumber supplied now s)"
| "step (Sweep now) s = sweep now s"

fun run :: "operation list \<Rightarrow> store \<Rightarrow> store" where
  "run [] s = s"
| "run (operation # ops) s = run ops (step operation s)"

fun issues_for :: "jsval \<Rightarrow> operation \<Rightarrow> bool" where
  "issues_for p (Issue phoneNumber r now) = (phoneNumber = p)"
| "issues_for p (Verify phoneNumber supplied now) = False"
| "issues_for p (Sweep now) = False"

definition no_issue_for :: "jsval \<Rightarrow> operation list \<Rightarrow> bool" where
  "no_issue_for p ops = (list_all (\<lambda>operation. \<not> issues_for p operation) ops)"

text \<open>How many entries the map holds for a phone number.\<close>

definition entries_for :: "jsval \<Rightarrow> store \<Rightarrow> nat" where
  "entries_for p s = length (filter (\<lambda>(phone, data). phone = p) s)"

section \<open>HTTP handlers\<close>

text \<open>
  A response is its status code and its JSON body (\<^verbatim>\<open>res.json\<close> without
  \<^verbatim>\<open>res.status\<close> answers 200).
\<close>

datatype response_body =
    ErrorBody string
  | ErrorDetailsBody string string
  | CodeSentBody string string
  | CodeVerifiedBody
  | MessageSentBody string string

datatype response = Response (status: nat) (body: response_body)

text \<open>
  The messaging provider is outside the repository: \<^verbatim>\<open>client.messages.create\<close> is a
  parameter that answers with the provider's message, or fails with an error message.
\<close>

record message_params =
  msg_body :: jsval
  msg_from :: string
  msg_to :: string

datatype twilio_message = TwilioMessage (sid: string) (msg_status: string)

type_synonym messaging_client = "message_params \<Rightarrow> string + twilio_message"

text \<open>
  \<^verbatim>\<open>POST /api/auth/send-code\<close>. The entry is stored before the recipient is formatted and
  the provider is called. A truthy phone number that is not a string has no
  \<^verbatim>\<open>startsWith\<close>: the call throws, and the handler's \<^verbatim>\<open>catch\<close> answers 500.
\<close>

definition send_code_handler ::
  "string \<Rightarrow> messaging_client \<Rightarrow> jsval \<Rightarrow> real \<Rightarrow> int \<Rightarrow> store \<Rightarrow> response \<times> store" where
  "send_code_handler twilioPhoneNumber client phoneNumber r now s =
     (if \<not> truthy phoneNumber then (Response 400 (ErrorBody ''Phone number is required''), s)
      else
        let (c, s') = issue phoneNumber r now s in
        (case phoneNumber of
           JStr p \<Rightarrow>
             (case client \<lparr>msg_body = JStr (''Your verification code is: '' @ c),
                           msg_from = ''whatsapp:'' @ twilioPhoneNumber,
                           msg_to = formattedTo p\<rparr> of
                Inl err \<Rightarrow>
                  (Response 500 (ErrorDetailsBody ''Failed to send verification code'' err), s')
              | Inr message \<Rightarrow> (Response 200 (CodeSentBody c (sid message)), s'))
         | _ \<Rightarrow>
             (Response 500 (ErrorDetailsBody ''Failed to send verification code''
                ''phoneNumber.startsWith is not a function''), s')))"

text \<open>\<^verbatim>\<open>POST /api/auth/verify-code\<close>.\<close>

definition verify_code_handler :: "jsval \<Rightarrow> jsval \<Rightarrow> int \<Rightarrow> store \<Rightarrow> response \<times> store" where
  "verify_code_handler phoneNumber supplied now s =
     (if \<not> truthy phoneNumber \<or> \<not> truthy supplied
      then (Response 400 (ErrorBody ''Phone number and code are required''), s)
      else
        (case verify phoneNumber supplied now s of
           (InvalidOrExpired, s') \<Rightarrow> (Response 400 (ErrorBody ''Invalid or expired code''), s')
         | (IncorrectCode, s') \<Rightarrow> (Response 400 (ErrorBody ''Incorrect code''), s')
         | (CodeVerified, s') \<Rightarrow> (Response 200 CodeVerifiedBody, s')))"

text \<open>
  The body shared by \<^verbatim>\<open>POST /api/whatsapp/send\<close> and
  \<^verbatim>\<open>POST /api/whatsapp/send-message\<close>.
\<close>

definition send_message_handler ::
  "string \<Rightarrow> messaging_client \<Rightarrow> jsval \<Rightarrow> jsval \<Rightarrow> response" where
  "send_message_handler twilioPhoneNumber client recipient text_body =
     (if \<not> truthy recipient \<or> \<not> truthy text_body
      then Response 400 (ErrorBody ''Phone number and message body are required'')
      else
        (case recipient of
           JStr t \<Rightarrow>
             (case client \<lparr>msg_body = text_body,
                           msg_from = ''whatsapp:'' @ twilioPhoneNumber,
                           msg_to = formattedTo t\<rparr> of
                Inl err \<Rightarrow> Response 500 (ErrorDetailsBody ''Failed to send WhatsApp message'' err)
              | Inr message \<Rightarrow> Response 200 (MessageSentBody (sid message) (msg_status message)))
         | _ \<Rightarrow>
             Response 500 (ErrorDetailsBody ''Failed to send WhatsApp message''
               ''to.startsWith is not a function'')))"

section \<open>The access-control middleware\<close>

text \<open>
  \<^verbatim>\<open>s.split(' ')\<close>: the pieces of \<open>s\<close> between the separators, at least one piece.
  \<^verbatim>\<open>xs[i]\<close> is \<^verbatim>\<open>undefined\<close> (here \<open>None\<close>) beyond the end.
\<close>

fun String_split :: "char \<Rightarrow> string \<Rightarrow> string list" where
  "String_split sep [] = [[]]"
| "String_split sep (c # cs) =
     (if c = sep then [] # String_split sep cs
      else (case String_split sep cs of
              [] \<Rightarrow> [[c]]
            | piece # pieces \<Rightarrow> (c # piece) # pieces))"

definition element_at :: "'a list \<Rightarrow> nat \<Rightarrow> 'a option" where
  "element_at xs i = (if i < length xs then Some (xs ! i) else None)"

text \<open>
  \<^verbatim>\<open>const JWT_SECRET = process.env.JWT_SECRET || 'your-secret-key-change-in-production'\<close>
\<close>

definition JWT_SECRET :: "string option \<Rightarrow> string" where
  "JWT_SECRET env =
     (case env of
        None \<Rightarrow> ''your-secret-key-change-in-production''
      | Some v \<Rightarrow> if v = [] then ''your-secret-key-change-in-production'' else v)"

text \<open>
  \<^verbatim>\<open>const token = authHeader && authHeader.split(' ')[1];\<close>
  A missing header gives \<^verbatim>\<open>undefined\<close>, an empty one gives the empty string.
\<close>

definition bearer_token :: "string option \<Rightarrow> string option" where
  "bearer_token authHeader =
     (case authHeader of
        None \<Rightarrow> None
      | Some h \<Rightarrow> if h = [] then Some [] else element_at (String_split CHR '' '' h) 1)"

text \<open>
  The request as the middleware and the handler see it: the authorization header, the two
  body fields, and \<^verbatim>\<open>req.user\<close>, which only the middleware sets.
\<close>

record 'u request =
  authorization :: "string option"
  body_to :: jsval
  body_body :: jsval
  user :: "'u option"

text \<open>
  \<^verbatim>\<open>authenticateToken(req, res, next)\<close> either answers itself or calls
  \<^verbatim>\<open>next()\<close> on the request it has updated. \<^verbatim>\<open>jwt.verify\<close> belongs to a library
  outside the repository and is a parameter: given the token and the secret it yields an
  error or the decoded payload.
\<close>

datatype 'u middleware_result = Answered response | Next "'u request"

definition authenticateToken ::
  "(string \<Rightarrow> string \<Rightarrow> string + 'u) \<Rightarrow> string option \<Rightarrow> 'u request \<Rightarrow> 'u middleware_result" where
  "authenticateToken jwt_verify env req =
     (case bearer_token (authorization req) of
        None \<Rightarrow> Answered (Response 401 (ErrorBody ''Access token required''))
      | Some token \<Rightarrow>
          if token = [] then Answered (Response 401 (ErrorBody ''Access token required''))
          else
            (case jwt_verify token (JWT_SECRET env) of
               Inl err \<Rightarrow> Answered (Response 403 (ErrorBody ''Invalid or expired token''))
             | Inr payload \<Rightarrow> Next (req\<lparr>user := Some payload\<rparr>)))"

text \<open>
  \<^verbatim>\<open>app.post('/api/whatsapp/send', authenticateToken, async (req, res) => ...)\<close>
\<close>

definition whatsapp_send_route ::
  "(string \<Rightarrow> string \<Rightarrow> string + 'u) \<Rightarrow> string option \<Rightarrow> string \<Rightarrow> messaging_client
     \<Rightarrow> 'u request \<Rightarrow> response" where
  "whatsapp_send_route jwt_verify env twilioPhoneNumber client req =
     (case authenticateToken jwt_verify env req of
        Answered res \<Rightarrow> res
      | Next req' \<Rightarrow> send_message_handler twilioPhoneNumber client (body_to req') (body_body req'))"

subsection \<open>A concrete token verifier, provider and request\<close>

text \<open>
  Stand-ins for the two outside collaborators, to run the route on concrete requests: a
  verifier that accepts the one token \<open>good\<close> under the secret \<open>s3cret\<close>, and a provider
  that accepts every message.
\<close>

definition example_jwt_verify :: "string \<Rightarrow> string \<Rightarrow> string + string" where
  "example_jwt_verify token secret =
     (if token = ''good'' \<and> secret = ''s3cret'' then Inr ''alice'' else Inl ''invalid signature'')"

definition example_client :: messaging_client where
  "example_client params = Inr (TwilioMessage ''SM1'' ''queued'')"

definition example_request :: "string option \<Rightarrow> string request" where
  "example_request h =
     \<lparr>authorization = h, body_to = JStr ''+15551234567'', body_body = JStr ''hello'', user = None\<rparr>"

section \<open>Facts about the map\<close>

lemma Map_get_set: "Map_get k' (Map_set k v m) = (if k' = k then Some v else Map_get k' m)"
  by (induction m) auto

lemma Map_get_delete_other: "k' \<noteq> k \<Longrightarrow> Map_get k' (Map_delete k m) = Map_get k' m"
  by (induction m) auto

lemma Map_get_None_iff: "Map_get k m = None \<longleftrightarrow> k \<notin> set (Map_keys m)"
  by (induction m) (auto simp: Map_keys_def split: if_splits)

lemma Map_keys_set:
  "Map_keys (Map_set k v m) = (if k \<in> set (Map_keys m) then Map_keys m else Map_keys m @ [k])"
proof (induction m)
  case Nil
  then show ?case by (simp add: Map_keys_def)
next
  case (Cons x m)
  obtain k' v' where x: "x = (k', v')" by (cases x)
  with Cons show ?case by (simp add: Map_keys_def)
qed

lemma Map_keys_delete: "distinct (Map_keys m) \<Longrightarrow> Map_keys (Map_delete k m) = removeAll k (Map_keys m)"
  by (induction m) (auto simp: Map_keys_def)

lemma set_Map_delete_subset: "set (Map_delete k m) \<subseteq> set m"
  by (induction m) (auto split: if_splits)

lemma distinct_Map_set: "distinct (Map_keys m) \<Longrightarrow> distinct (Map_keys (Map_set k v m))"
  by (simp add: Map_keys_set)

lemma distinct_Map_delete: "distinct (Map_keys m) \<Longrightarrow> distinct (Map_keys (Map_delete k m))"
  by (simp add: Map_keys_delete distinct_removeAll)

lemma Map_get_delete_same: "distinct (Map_keys m) \<Longrightarrow> Map_get k (Map_delete k m) = None"
  by (simp add: Map_get_None_iff Map_keys_delete)

lemma Map_delete_middle:
  "k \<notin> set (Map_keys pre) \<Longrightarrow> Map_delete k (pre @ (k, v) # rest) = pre @ rest"
  by (induction pre) (auto simp: Map_keys_def)

lemma sweep_loop_filter:
  "distinct (Map_keys (pre @ ahead)) \<Longrightarrow>
   sweep_loop now ahead (pre @ ahead) = pre @ filter (\<lambda>(phone, data). \<not> expiresAt data < now) ahead"
proof (induction ahead arbitrary: pre)
  case Nil
  then show ?case by simp
next
  case (Cons x ahead)
  obtain phone data where x: "x = (phone, data)" by (cases x)
  show ?case
  proof (cases "expiresAt data < now")
    case True
    from Cons.prems x have "phone \<notin> set (Map_keys pre)" and d: "distinct (Map_keys (pre @ ahead))"
      by (auto simp: Map_keys_def)
    then have "Map_delete phone (pre @ (phone, data) # ahead) = pre @ ahead"
      by (simp add: Map_delete_middle)
    with True x Cons.IH [OF d] show ?thesis by simp
  next
    case False
    from Cons.prems x have d: "distinct (Map_keys ((pre @ [(phone, data)]) @ ahead))"
      by (simp add: Map_keys_def)
    from Cons.IH [OF d] False x show ?thesis by simp
  qed
qed

lemma sweep_filter:
  "distinct (Map_keys s) \<Longrightarrow> sweep now s = filter (\<lambda>(phone, data). \<not> expiresAt data < now) s"
  using sweep_loop_filter [of "[]" s now] by (simp add: sweep_def)

lemma Map_get_filter:
  "distinct (Map_keys m) \<Longrightarrow>
   Map_get k (filter P m) = (case Map_get k m of None \<Rightarrow> None | Some v \<Rightarrow> if P (k, v) then Some v else None)"
proof (induction m)
  case Nil
  then show ?case by simp
next
  case (Cons x m)
  obtain a b where x: "x = (a, b)" by (cases x)
  from Cons.prems x have d: "distinct (Map_keys m)" and a: "a \<notin> set (Map_keys m)"
    by (simp_all add: Map_keys_def)
  note IH = Cons.IH [OF d]
  show ?case
  proof (cases "a = k")
    case True
    with a have "Map_get k m = None" by (simp add: Map_get_None_iff)
    with IH True x show ?thesis by simp
  next
    case False
    with IH x show ?thesis by simp
  qed
qed

lemma Map_get_sweep:
  "distinct (Map_keys s) \<Longrightarrow>
   Map_get k (sweep now s) =
     (case Map_get k s of None \<Rightarrow> None | Some data \<Rightarrow> if expiresAt data < now then None else Some data)"
  by (simp add: sweep_filter Map_get_filter split: option.splits)

lemma distinct_sweep: "distinct (Map_keys s) \<Longrightarrow> distinct (Map_keys (sweep now s))"
  by (simp add: sweep_filter Map_keys_def distinct_map_filter)

lemma distinct_step: "distinct (Map_keys s) \<Longrightarrow> distinct (Map_keys (step operation s))"
  by (cases operation)
     (auto simp: issue_def verify_def Let_def distinct_Map_set distinct_Map_delete distinct_sweep
           split: option.splits)

lemma distinct_run: "distinct (Map_keys s) \<Longrightarrow> distinct (Map_keys (run ops s))"
  by (induction ops arbitrary: s) (auto simp: distinct_step)

section \<open>Facts about binary64 rounding\<close>

lemma bit_length_le_iff: "bit_length n \<le> k \<longleftrightarrow> n < 2 ^ k"
proof (induction k arbitrary: n)
  case 0
  show ?case by (subst bit_length.simps) simp
next
  case (Suc k)
  show ?case
  proof (cases "n = 0")
    case True
    then show ?thesis by (subst bit_length.simps) simp
  next
    case False
    have "bit_length n \<le> Suc k \<longleftrightarrow> bit_length (n div 2) \<le> k"
      using False by (subst bit_length.simps) simp
    also have "\<dots> \<longleftrightarrow> n div 2 < 2 ^ k" by (rule Suc.IH)
    also have "\<dots> \<longleftrightarrow> n < 2 ^ Suc k" by (simp add: div_less_iff_less_mult mult.commute)
    finally show ?thesis .
  qed
qed

lemma round_half_even_of_int: "round_half_even (of_int k) = k"
  by (simp add: round_half_even_def)

lemma round_half_even_le: "z \<le> of_int k \<Longrightarrow> round_half_even z \<le> k"
proof -
  assume le: "z \<le> of_int k"
  show ?thesis
  proof (cases "z = of_int k")
    case True
    then show ?thesis by (simp add: round_half_even_of_int)
  next
    case False
    with le have "z < of_int k" by simp
    then have "\<lfloor>z\<rfloor> < k" by (simp add: floor_less_iff)
    then have "\<lfloor>z\<rfloor> + 1 \<le> k" by simp
    then show ?thesis by (auto simp: round_half_even_def Let_def)
  qed
qed

lemma round_half_even_ge: "of_int k \<le> z \<Longrightarrow> k \<le> round_half_even z"
proof -
  assume "of_int k \<le> z"
  then have "k \<le> \<lfloor>z\<rfloor>" by (simp add: le_floor_iff)
  then show ?thesis by (auto simp: round_half_even_def Let_def)
qed

lemma round_half_even_below_half:
  assumes "z < of_int k + 1 / 2"
  shows "round_half_even z \<le> k"
proof (cases "z \<le> of_int k")
  case True
  then show ?thesis by (rule round_half_even_le)
next
  case False
  then have "of_int k \<le> z" and "z < of_int k + 1" using assms by simp_all
  then have f: "\<lfloor>z\<rfloor> = k" by (simp add: floor_eq_iff)
  with assms show ?thesis by (simp add: round_half_even_def)
qed


lemma binary_exponent_le:
  assumes "0 < x" and "x < 2 ^ Suc n"
  shows "binary_exponent x \<le> int n"
proof (cases "1 \<le> x")
  case True
  from assms(2) have "\<lfloor>x\<rfloor> < 2 ^ Suc n" by (simp add: floor_less_iff)
  with True have "nat \<lfloor>x\<rfloor> < 2 ^ Suc n" by (simp add: nat_less_iff)
  then have "bit_length (nat \<lfloor>x\<rfloor>) \<le> Suc n" by (simp add: bit_length_le_iff)
  with True show ?thesis by (simp add: binary_exponent_def)
next
  case False
  then show ?thesis by (simp add: binary_exponent_def)
qed

lemma binary_exponent_eq:
  assumes "2 ^ n \<le> x" and "x < 2 ^ Suc n"
  shows "binary_exponent x = int n"
proof -
  have one: "1 \<le> x" using assms(1) one_le_power [of "2::real" n] by linarith
  then have pos: "0 < x" by simp
  from assms(1) have "2 ^ n \<le> \<lfloor>x\<rfloor>" by (simp add: le_floor_iff)
  then have "\<not> nat \<lfloor>x\<rfloor> < 2 ^ n" by (simp add: nat_less_iff not_less)
  then have "\<not> bit_length (nat \<lfloor>x\<rfloor>) \<le> n" by (simp add: bit_length_le_iff)
  moreover from binary_exponent_le [OF pos assms(2)] one
  have "int (bit_length (nat \<lfloor>x\<rfloor>)) - 1 \<le> int n" by (simp add: binary_exponent_def)
  ultimately have "bit_length (nat \<lfloor>x\<rfloor>) = Suc n" by linarith
  with one show ?thesis by (simp add: binary_exponent_def)
qed

lemma binary_exponent_half:
  assumes "1 / 2 \<le> x" and "x < 1"
  shows "binary_exponent x = - 1"
proof -
  from assms have pos: "0 < x" by simp
  from assms pos have "1 < 1 / x" and "1 / x \<le> 2" by (simp_all add: field_simps)
  then have "\<lceil>1 / x\<rceil> = 2" by (simp add: ceiling_eq_iff)
  moreover have "bit_length (Suc 0) = 1" by (simp add: bit_length.simps)
  ultimately show ?thesis using assms(2) by (simp add: binary_exponent_def)
qed

lemma quantum_pos: "0 < quantum x"
  by (simp add: quantum_def)

text \<open>Below \<open>2 ^ Suc n\<close> the quantum divides \<open>2 powi (n - 52)\<close>.\<close>

lemma quantum_divides:
  assumes "x \<noteq> 0" and "\<bar>x\<bar> < 2 ^ Suc n"
  shows "\<exists>m::int. 2 powi (int n - 52) = of_int m * quantum x"
proof -
  define b where "b = max (binary_exponent \<bar>x\<bar> - 52) (- 1074)"
  from assms have "binary_exponent \<bar>x\<bar> \<le> int n" by (intro binary_exponent_le) simp_all
  then have le: "b \<le> int n - 52" by (simp add: b_def)
  have "(2::real) powi (int n - 52) = 2 powi (int n - 52 - b) * 2 powi b"
    by (simp flip: power_int_add)
  also have "(2::real) powi (int n - 52 - b) = 2 ^ nat (int n - 52 - b)"
    using le by (simp add: power_int_def)
  also have "\<dots> = of_int (2 ^ nat (int n - 52 - b))" by simp
  finally show ?thesis unfolding quantum_def b_def [symmetric] by blast
qed

lemma round_binary64_le:
  assumes "g = of_int k * quantum x" and "x \<le> g"
  shows "round_binary64 x \<le> g"
proof (cases "x = 0")
  case True
  with assms(2) show ?thesis by (simp add: round_binary64_def)
next
  case False
  from assms have "x / quantum x \<le> of_int k" using quantum_pos [of x]
    by (simp add: field_simps)
  then have "round_half_even (x / quantum x) \<le> k" by (rule round_half_even_le)
  then have "of_int (round_half_even (x / quantum x)) * quantum x \<le> of_int k * quantum x"
    using quantum_pos [of x] by simp
  with False assms(1) show ?thesis by (simp add: round_binary64_def)
qed

lemma round_binary64_ge:
  assumes "g = of_int k * quantum x" and "g \<le> x"
  shows "g \<le> round_binary64 x"
proof (cases "x = 0")
  case True
  with assms(2) show ?thesis by (simp add: round_binary64_def)
next
  case False
  from assms have "of_int k \<le> x / quantum x" using quantum_pos [of x]
    by (simp add: field_simps)
  then have "k \<le> round_half_even (x / quantum x)" by (rule round_half_even_ge)
  then have "of_int k * quantum x \<le> of_int (round_half_even (x / quantum x)) * quantum x"
    using quantum_pos [of x] by simp
  with False assms(1) show ?thesis by (simp add: round_binary64_def)
qed

text \<open>A multiple of \<open>2 powi (n - 52)\<close> is a multiple of the quantum of any \<open>x\<close> below \<open>2 ^ Suc n\<close>.\<close>

lemma grid_multiple:
  assumes "x \<noteq> 0" and "\<bar>x\<bar> < 2 ^ Suc n"
  shows "\<exists>k::int. of_int j * 2 powi (int n - 52) = of_int k * quantum x"
proof -
  from quantum_divides [OF assms] obtain m :: int
    where "2 powi (int n - 52) = of_int m * quantum x" by blast
  then have "of_int j * 2 powi (int n - 52) = of_int (j * m) * quantum x" by simp
  then show ?thesis by blast
qed

lemma round_binary64_nonneg: "0 \<le> x \<Longrightarrow> 0 \<le> round_binary64 x"
  using round_binary64_ge [of 0 0 x] by simp


lemma quantum_top_binade:
  assumes "2 ^ 19 \<le> x" and "x < 2 ^ 20"
  shows "quantum x = 1 / 2 ^ 33"
proof -
  from assms have "0 \<le> x" by simp
  moreover from assms have "binary_exponent x = int 19"
    by (intro binary_exponent_eq) simp_all
  ultimately show ?thesis by (simp add: quantum_def power_int_minus_divide)
qed

lemma product_round_le:
  assumes "0 \<le> x" and "x \<le> 900000 - 900000 / 2 ^ 53"
  shows "round_binary64 x \<le> 900000 - 1 / 2 ^ 33"
proof (cases "x \<le> 900000 - 1 / 2 ^ 33")
  case True
  show ?thesis
  proof (cases "x = 0")
    case True
    then show ?thesis by (simp add: round_binary64_def)
  next
    case False
    from assms have "\<bar>x\<bar> < 2 ^ Suc 19" by simp
    from grid_multiple [OF False this, of "900000 * 2 ^ 33 - 1"]
    obtain k :: int where "of_int (900000 * 2 ^ 33 - 1) * 2 powi (int 19 - 52) = of_int k * quantum x"
      by blast
    then have "900000 - 1 / 2 ^ 33 = of_int k * quantum x"
      by (simp add: power_int_minus_divide)
    from round_binary64_le [OF this True] show ?thesis .
  qed
next
  case False
  then have lo: "900000 - 1 / 2 ^ 33 < x" by simp
  then have "2 ^ 19 \<le> x" by simp
  moreover from assms(2) have "x < 2 ^ 20" by simp
  ultimately have q: "quantum x = 1 / 2 ^ 33" by (rule quantum_top_binade)
  from assms(2) have "x * 2 ^ 33 \<le> (900000 - 900000 / 2 ^ 53) * 2 ^ 33"
    by (simp only: mult_le_cancel_right_pos zero_less_power zero_less_numeral)
  then have "x / quantum x < of_int (900000 * 2 ^ 33 - 1) + 1 / 2" by (simp add: q)
  then have "round_half_even (x / quantum x) \<le> 900000 * 2 ^ 33 - 1"
    by (rule round_half_even_below_half)
  then have "of_int (round_half_even (x / quantum x)) * quantum x
      \<le> of_int (900000 * 2 ^ 33 - 1) * quantum x"
    using quantum_pos [of x] by (simp only: mult_le_cancel_right_pos of_int_le_iff)
  moreover from lo have "x \<noteq> 0" by auto
  ultimately show ?thesis by (simp add: round_binary64_def q)
qed

lemma sum_round_bounds:
  assumes "100000 \<le> y" and "y \<le> 1000000 - 1 / 2 ^ 33"
  shows "100000 \<le> round_binary64 y" and "round_binary64 y \<le> 1000000 - 1 / 2 ^ 33"
proof -
  from assms have nz: "y \<noteq> 0" and small: "\<bar>y\<bar> < 2 ^ Suc 19" by simp_all
  from grid_multiple [OF nz small, of "100000 * 2 ^ 33"]
  obtain k :: int where "of_int (100000 * 2 ^ 33) * 2 powi (int 19 - 52) = of_int k * quantum y"
    by blast
  then have "100000 = of_int k * quantum y" by (simp add: power_int_minus_divide)
  from round_binary64_ge [OF this assms(1)] show "100000 \<le> round_binary64 y" .
  from grid_multiple [OF nz small, of "1000000 * 2 ^ 33 - 1"]
  obtain j :: int where "of_int (1000000 * 2 ^ 33 - 1) * 2 powi (int 19 - 52) = of_int j * quantum y"
    by blast
  then have "1000000 - 1 / 2 ^ 33 = of_int j * quantum y" by (simp add: power_int_minus_divide)
  from round_binary64_le [OF this assms(2)] show "round_binary64 y \<le> 1000000 - 1 / 2 ^ 33" .
qed

lemma binary64_below_one:
  assumes "is_binary64 r" and "0 \<le> r" and "r < 1"
  shows "r \<le> 1 - 1 / 2 ^ 53"
proof (cases "r < 1 / 2")
  case True
  then show ?thesis by simp
next
  case False
  then have half: "1 / 2 \<le> r" by simp
  then have "binary_exponent r = - 1" using assms(3) by (rule binary_exponent_half)
  with assms(2) have q: "quantum r = 1 / 2 ^ 53" by (simp add: quantum_def power_int_minus_divide)
  define K where "K = round_half_even (r / quantum r)"
  from half have "r \<noteq> 0" by auto
  with assms(1) have r: "r = of_int K / 2 ^ 53"
    by (simp add: is_binary64_def round_binary64_def K_def q)
  with assms(3) have "(of_int K :: real) < of_int (2 ^ 53)" by (simp add: field_simps)
  then have "K < 2 ^ 53" by (simp only: of_int_less_iff)
  then have "K \<le> 2 ^ 53 - 1" by simp
  then have "(of_int K :: real) \<le> of_int (2 ^ 53 - 1)" by (simp only: of_int_le_iff)
  with r show ?thesis by (simp add: field_simps)
qed

lemma generated_number_range:
  assumes "is_binary64 r" and "0 \<le> r" and "r < 1"
  shows "100000 \<le> \<lfloor>round_binary64 (100000 + round_binary64 (r * 900000))\<rfloor>"
    and "\<lfloor>round_binary64 (100000 + round_binary64 (r * 900000))\<rfloor> \<le> 999999"
proof -
  define p where "p = round_binary64 (r * 900000)"
  define y where "y = round_binary64 (100000 + p)"
  from binary64_below_one [OF assms] have "r * 900000 \<le> (1 - 1 / 2 ^ 53) * 900000"
    by (simp only: mult_le_cancel_right_pos zero_less_numeral)
  then have b: "r * 900000 \<le> 900000 - 900000 / 2 ^ 53" by (simp add: algebra_simps)
  from assms(2) have a: "0 \<le> r * 900000" by simp
  from a b have "p \<le> 900000 - 1 / 2 ^ 33" unfolding p_def by (rule product_round_le)
  moreover from a have "0 \<le> p" unfolding p_def by (rule round_binary64_nonneg)
  ultimately have "100000 \<le> 100000 + p" and "100000 + p \<le> 1000000 - 1 / 2 ^ 33" by simp_all
  then have lo: "100000 \<le> y" and hi: "y \<le> 1000000 - 1 / 2 ^ 33"
    unfolding y_def by (rule sum_round_bounds)+
  from lo show "100000 \<le> \<lfloor>round_binary64 (100000 + round_binary64 (r * 900000))\<rfloor>"
    unfolding y_def p_def by (simp add: le_floor_iff)
  from hi have "y < 1000000" by simp
  then have "\<lfloor>y\<rfloor> < 1000000" by (simp add: floor_less_iff)
  then show "\<lfloor>round_binary64 (100000 + round_binary64 (r * 900000))\<rfloor> \<le> 999999"
    unfolding y_def p_def by simp
qed

lemma code_number_range:
  assumes "is_binary64 r" and "0 \<le> r" and "r < 1"
  shows "100000 \<le> code_number r" and "code_number r \<le> 999999"
  unfolding code_number_def using assms by (rule generated_number_range)+

section \<open>Facts about the generated code\<close>

lemma of_char_digit_char: "d < 10 \<Longrightarrow> (of_char (digit_char d) :: nat) = 48 + d"
  by (simp add: digit_char_def)

lemma is_digit_digit_char: "d < 10 \<Longrightarrow> is_digit (digit_char d)"
  by (simp add: is_digit_def of_char_digit_char)

lemma digits_nonempty: "digits n \<noteq> []"
  by (subst digits.simps) simp

lemma digits_all_digits: "list_all is_digit (digits n)"
proof (induction n rule: digits.induct)
  case (1 n)
  show ?case
  proof (cases "n < 10")
    case True
    then show ?thesis by (subst digits.simps) (simp add: is_digit_digit_char)
  next
    case False
    with "1.IH" show ?thesis by (subst digits.simps) (simp add: is_digit_digit_char)
  qed
qed

lemma decimal_value_snoc:
  "decimal_value (s @ [c]) = 10 * decimal_value s + ((of_char c :: nat) - 48)"
  by (simp add: decimal_value_def)

lemma decimal_value_digits: "decimal_value (digits n) = n"
proof (induction n rule: digits.induct)
  case (1 n)
  show ?case
  proof (cases "n < 10")
    case True
    then show ?thesis
      by (subst digits.simps) (simp add: decimal_value_def of_char_digit_char)
  next
    case False
    with "1.IH" show ?thesis
      by (subst digits.simps) (simp add: decimal_value_snoc of_char_digit_char)
  qed
qed

lemma length_digits:
  "n < 10 ^ Suc k \<Longrightarrow> k = 0 \<or> 10 ^ k \<le> n \<Longrightarrow> length (digits n) = Suc k"
proof (induction k arbitrary: n)
  case 0
  then show ?case by (subst digits.simps) simp
next
  case (Suc k)
  from Suc.prems have ge: "10 * 10 ^ k \<le> n" and lt: "n < 10 * (10 * 10 ^ k)" by simp_all
  have "(1::nat) \<le> 10 ^ k" by simp
  with ge have n10: "\<not> n < 10" by linarith
  from lt have a: "n div 10 < 10 ^ Suc k" by simp
  from ge have b: "10 ^ k \<le> n div 10" by simp
  from Suc.IH [OF a] b have "length (digits (n div 10)) = Suc k" by simp
  with n10 show ?case by (subst digits.simps) simp
qed

lemma length_digits_6: "100000 \<le> n \<Longrightarrow> n \<le> 999999 \<Longrightarrow> length (digits n) = 6"
  using length_digits [of n 5] by simp

lemma digit_char_table: "map digit_char [0, 1, 2, 3, 4, 5, 6, 7, 8, 9] = ''0123456789''"
  by (simp add: digit_char_def char_of_def bit_iff_odd drop_bit_eq_div)

lemmas digits_eval = digits.simps digit_char_def char_of_def bit_iff_odd drop_bit_eq_div

lemmas binary64_eval = code_number_def round_binary64_def quantum_def binary_exponent_def
  bit_length.simps round_half_even_def power_int_minus_divide


section \<open>What the handlers do to the store\<close>

text \<open>
  A request that fails a handler's missing-field guard leaves the map alone; any other
  send-code request performs \<open>issue\<close> (also when the provider call then fails, or when
  the phone number is not a string), and any other verify-code request performs \<open>verify\<close>.
  Every change a handler makes to the map is therefore a \<open>step\<close>.
\<close>

lemma send_code_handler_store:
  "snd (send_code_handler twilioPhoneNumber client p r now s)
     = (if truthy p then snd (issue p r now s) else s)"
  by (simp add: send_code_handler_def issue_def Let_def split: jsval.splits sum.splits)

lemma send_code_handler_sent:
  assumes "p \<noteq> []"
    and "client \<lparr>msg_body = JStr (''Your verification code is: '' @ generate_code r),
                 msg_from = ''whatsapp:'' @ twilioPhoneNumber,
                 msg_to = formattedTo p\<rparr> = Inr message"
  shows "fst (send_code_handler twilioPhoneNumber client (JStr p) r now s)
     = Response 200 (CodeSentBody (fst (issue (JStr p) r now s)) (sid message))"
  using assms by (simp add: send_code_handler_def issue_def Let_def)

lemma verify_code_handler_store:
  "snd (verify_code_handler p supplied now s)
     = (if truthy p \<and> truthy supplied then snd (verify p supplied now s) else s)"
  by (simp add: verify_code_handler_def split: prod.splits verify_result.splits)

section \<open>Recipient formatting\<close>

lemma startsWith_append: "startsWith (p @ t) p"
  by (simp add: startsWith_def)

text \<open>
  C7. The formatting of the recipient returns \<open>t\<close> when \<open>t\<close> starts with \<open>whatsapp:\<close> and
  \<open>whatsapp:\<close> followed by \<open>t\<close> otherwise, and formatting twice is formatting once.
\<close>

theorem C7_formattedTo_idempotent:
  "formattedTo t = (if startsWith t ''whatsapp:'' then t else ''whatsapp:'' @ t)
   \<and> formattedTo (formattedTo t) = formattedTo t"
proof -
  have "startsWith (formattedTo t) ''whatsapp:''"
    unfolding formattedTo_def using startsWith_append [of "''whatsapp:''" t] by simp
  then have "formattedTo (formattedTo t) = formattedTo t"
    by (simp add: formattedTo_def [of "formattedTo t"])
  then show ?thesis by (simp add: formattedTo_def)
qed

section \<open>The life of a verification code\<close>

lemma set_sweep_loop_subset: "set (sweep_loop now ahead s) \<subseteq> set s"
proof (induction ahead arbitrary: s)
  case Nil
  then show ?case by simp
next
  case (Cons x ahead)
  obtain phone data where x: "x = (phone, data)" by (cases x)
  show ?case
  proof (cases "expiresAt data < now")
    case True
    have "set (sweep_loop now ahead (Map_delete phone s)) \<subseteq> set (Map_delete phone s)"
      by (rule Cons.IH)
    also have "\<dots> \<subseteq> set s" by (rule set_Map_delete_subset)
    finally show ?thesis using True x by simp
  next
    case False
    with x Cons.IH [of s] show ?thesis by simp
  qed
qed

lemma Map_get_None_subset: "set m' \<subseteq> set m \<Longrightarrow> Map_get k m = None \<Longrightarrow> Map_get k m' = None"
  by (auto simp: Map_get_None_iff Map_keys_def)

lemma Map_get_None_step:
  assumes "Map_get p s = None" and "\<not> issues_for p operation"
  shows "Map_get p (step operation s) = None"
proof (cases operation)
  case (Issue q r now)
  with assms show ?thesis by (simp add: issue_def Let_def Map_get_set)
next
  case (Verify q supplied now)
  have "set (snd (verify q supplied now s)) \<subseteq> set s"
    using set_Map_delete_subset [of q s] by (simp add: verify_def split: option.splits)
  with assms(1) Verify show ?thesis by (simp add: Map_get_None_subset)
next
  case (Sweep now)
  have "set (sweep now s) \<subseteq> set s" by (simp add: sweep_def set_sweep_loop_subset)
  with assms(1) Sweep show ?thesis by (simp add: Map_get_None_subset)
qed

lemma Map_get_None_run:
  "Map_get p s = None \<Longrightarrow> no_issue_for p ops \<Longrightarrow> Map_get p (run ops s) = None"
  by (induction ops arbitrary: s) (simp_all add: no_issue_for_def Map_get_None_step)

lemma generate_code_nonempty: "generate_code r \<noteq> []"
  by (simp add: generate_code_def Number_toString_def digits_nonempty)

lemma verify_absent: "Map_get p s = None \<Longrightarrow> verify p supplied now s = (InvalidOrExpired, s)"
  by (simp add: verify_def)

lemma verify_code_handler_valid:
  "truthy p \<Longrightarrow> truthy supplied \<Longrightarrow>
   verify_code_handler p supplied now s =
     (case verify p supplied now s of
        (InvalidOrExpired, s') \<Rightarrow> (Response 400 (ErrorBody ''Invalid or expired code''), s')
      | (IncorrectCode, s') \<Rightarrow> (Response 400 (ErrorBody ''Incorrect code''), s')
      | (CodeVerified, s') \<Rightarrow> (Response 200 CodeVerifiedBody, s'))"
  by (simp add: verify_code_handler_def)

text \<open>
  C1. Single use. A code \<open>c\<close> issued for \<open>p\<close> at time \<open>t0\<close> is accepted by a check at any
  time \<open>t1\<close> up to its expiry, and that check deletes the entry. After any further
  operations that do not issue a code for \<open>p\<close> (sweeps, checks, codes issued for other
  numbers), a check of \<open>c\<close> for \<open>p\<close> is rejected as invalid or expired, at whatever time it
  is made. The same holds of the handler's responses when \<open>p\<close> passes its missing-field
  guard. The map's keys are distinct, as they are in every state the program reaches.
\<close>

theorem C1_single_use:
  assumes inv: "distinct (Map_keys s)"
    and iss: "issue p r t0 s = (c, s1)"
    and window: "t1 \<le> t0 + 5 * 60 * 1000"
    and later: "no_issue_for p ops"
  shows "verify p (JStr c) t1 s1 = (CodeVerified, Map_delete p s1)
       \<and> Map_get p (Map_delete p s1) = None
       \<and> verify p (JStr c) t2 (run ops (Map_delete p s1))
           = (InvalidOrExpired, run ops (Map_delete p s1))
       \<and> (truthy p \<longrightarrow>
            fst (verify_code_handler p (JStr c) t1 s1) = Response 200 CodeVerifiedBody
          \<and> snd (verify_code_handler p (JStr c) t1 s1) = Map_delete p s1
          \<and> fst (verify_code_handler p (JStr c) t2 (run ops (Map_delete p s1)))
              = Response 400 (ErrorBody ''Invalid or expired code''))"
proof -
  from iss have c: "c = generate_code r"
    and s1: "s1 = Map_set p \<lparr>code = c, expiresAt = t0 + 5 * 60 * 1000\<rparr> s"
    by (auto simp: issue_def Let_def)
  from s1 have stored: "Map_get p s1 = Some \<lparr>code = c, expiresAt = t0 + 5 * 60 * 1000\<rparr>"
    by (simp add: Map_get_set)
  from stored window have first: "verify p (JStr c) t1 s1 = (CodeVerified, Map_delete p s1)"
    by (simp add: verify_def)
  from inv s1 have "distinct (Map_keys s1)" by (simp add: distinct_Map_set)
  then have gone: "Map_get p (Map_delete p s1) = None" by (rule Map_get_delete_same)
  from gone later have "Map_get p (run ops (Map_delete p s1)) = None" by (rule Map_get_None_run)
  then have second: "verify p (JStr c) t2 (run ops (Map_delete p s1))
      = (InvalidOrExpired, run ops (Map_delete p s1))"
    by (rule verify_absent)
  from c have "truthy (JStr c)" by (simp add: generate_code_nonempty)
  with first second have "truthy p \<longrightarrow>
            fst (verify_code_handler p (JStr c) t1 s1) = Response 200 CodeVerifiedBody
          \<and> snd (verify_code_handler p (JStr c) t1 s1) = Map_delete p s1
          \<and> fst (verify_code_handler p (JStr c) t2 (run ops (Map_delete p s1)))
              = Response 400 (ErrorBody ''Invalid or expired code'')"
    by (simp add: verify_code_handler_valid)
  with first gone second show ?thesis by blast
qed

text \<open>
  C2. A wrong code leaves everything as it was. When \<open>p\<close> has an entry that has not expired
  and the supplied value differs from the stored code, the check reports an incorrect code
  and returns the map unchanged, so that a later check with the stored code, made before
  the expiry, is accepted.
\<close>

theorem C2_mismatch_keeps_entry:
  assumes "Map_get p s = Some stored"
    and "\<not> expiresAt stored < now"
    and "supplied \<noteq> JStr (code stored)"
  shows "verify p supplied now s = (IncorrectCode, s)
       \<and> (\<not> expiresAt stored < now' \<longrightarrow>
            fst (verify p (JStr (code stored)) now' (snd (verify p supplied now s))) = CodeVerified)
       \<and> (truthy p \<and> truthy supplied \<longrightarrow>
            verify_code_handler p supplied now s = (Response 400 (ErrorBody ''Incorrect code''), s))"
proof -
  from assms have wrong: "verify p supplied now s = (IncorrectCode, s)"
    by (auto simp: verify_def)
  from assms(1) have "\<not> expiresAt stored < now' \<longrightarrow>
      fst (verify p (JStr (code stored)) now' s) = CodeVerified"
    by (simp add: verify_def)
  moreover from wrong have "truthy p \<and> truthy supplied \<longrightarrow>
      verify_code_handler p supplied now s = (Response 400 (ErrorBody ''Incorrect code''), s)"
    by (simp add: verify_code_handler_valid)
  ultimately show ?thesis using wrong by simp
qed

lemma verify_after_earlier_sweep:
  assumes "distinct (Map_keys s)" and "t \<le> now"
  shows "fst (verify p supplied now (sweep t s)) = fst (verify p supplied now s)"
  using assms by (auto simp: verify_def Map_get_sweep split: option.splits)

text \<open>
  C3. When \<open>p\<close> has no entry, or its entry's \<open>expiresAt\<close> is before the time of the call,
  the check is rejected as invalid or expired whatever code is supplied, and the map is
  returned unchanged; the answer is the same on the map a sweep (at any time) has left.
\<close>

theorem C3_invalid_or_expired:
  assumes "Map_get p s = None \<or> (\<exists>stored. Map_get p s = Some stored \<and> expiresAt stored < now)"
  shows "verify p supplied now s = (InvalidOrExpired, s)
       \<and> (distinct (Map_keys s) \<longrightarrow> fst (verify p supplied now (sweep t s)) = InvalidOrExpired)
       \<and> (truthy p \<and> truthy supplied \<longrightarrow>
            verify_code_handler p supplied now s
              = (Response 400 (ErrorBody ''Invalid or expired code''), s))"
proof -
  from assms have direct: "verify p supplied now s = (InvalidOrExpired, s)"
    by (auto simp: verify_def)
  from assms have "distinct (Map_keys s) \<longrightarrow>
      fst (verify p supplied now (sweep t s)) = InvalidOrExpired"
    by (auto simp: verify_def Map_get_sweep)
  moreover from direct have "truthy p \<and> truthy supplied \<longrightarrow>
      verify_code_handler p supplied now s
        = (Response 400 (ErrorBody ''Invalid or expired code''), s)"
    by (simp add: verify_code_handler_valid)
  ultimately show ?thesis using direct by simp
qed


theorem C1_single_use_witness:
  "distinct (Map_keys ([] :: store))
   \<and> issue (JStr ''+15551234567'') (1 / 2) 0 []
        = (''550000'', [(JStr ''+15551234567'', \<lparr>code = ''550000'', expiresAt = 300000\<rparr>)])
   \<and> (1000 :: int) \<le> 0 + 5 * 60 * 1000
   \<and> no_issue_for (JStr ''+15551234567'')
        [Sweep 400000, Issue (JStr ''+15550000000'') 0 100,
         Verify (JStr ''+15551234567'') (JStr ''550000'') 5000]
   \<and> verify (JStr ''+15551234567'') (JStr ''550000'') 1000
        [(JStr ''+15551234567'', \<lparr>code = ''550000'', expiresAt = 300000\<rparr>)]
        = (CodeVerified, [])
   \<and> fst (verify (JStr ''+15551234567'') (JStr ''550000'') 2000
        (run [Sweep 400000, Issue (JStr ''+15550000000'') 0 100,
              Verify (JStr ''+15551234567'') (JStr ''550000'') 5000] []))
        = InvalidOrExpired
   \<and> fst (verify_code_handler (JStr ''+15551234567'') (JStr ''550000'') 2000
        (run [Sweep 400000, Issue (JStr ''+15550000000'') 0 100,
              Verify (JStr ''+15551234567'') (JStr ''550000'') 5000] []))
        = Response 400 (ErrorBody ''Invalid or expired code'')"
proof -
  have h1: "distinct (Map_keys ([] :: store))" by (simp add: Map_keys_def)
  have h2: "issue (JStr ''+15551234567'') (1 / 2) 0 []
        = (''550000'', [(JStr ''+15551234567'', \<lparr>code = ''550000'', expiresAt = 300000\<rparr>)])"
    by (simp add: issue_def Let_def generate_code_def binary64_eval Number_toString_def digits_eval)
  have h3: "(1000 :: int) \<le> 0 + 5 * 60 * 1000" by simp
  have h4: "no_issue_for (JStr ''+15551234567'')
        [Sweep 400000, Issue (JStr ''+15550000000'') 0 100,
         Verify (JStr ''+15551234567'') (JStr ''550000'') 5000]"
    by (simp add: no_issue_for_def)
  from C1_single_use [OF h1 h2 h3 h4, of 2000] h1 h2 h3 h4 show ?thesis by simp
qed

theorem C2_mismatch_keeps_entry_witness:
  "Map_get (JStr ''+15551234567'')
       [(JStr ''+15551234567'', \<lparr>code = ''482913'', expiresAt = 300000\<rparr>)]
     = Some \<lparr>code = ''482913'', expiresAt = 300000\<rparr>
   \<and> \<not> expiresAt \<lparr>code = ''482913'', expiresAt = 300000\<rparr> < 1000
   \<and> JStr ''000000'' \<noteq> JStr (code \<lparr>code = ''482913'', expiresAt = 300000\<rparr>)
   \<and> verify (JStr ''+15551234567'') (JStr ''000000'') 1000
        [(JStr ''+15551234567'', \<lparr>code = ''482913'', expiresAt = 300000\<rparr>)]
      = (IncorrectCode, [(JStr ''+15551234567'', \<lparr>code = ''482913'', expiresAt = 300000\<rparr>)])
   \<and> fst (verify (JStr ''+15551234567'') (JStr ''482913'') 300000
        (snd (verify (JStr ''+15551234567'') (JStr ''000000'') 1000
          [(JStr ''+15551234567'', \<lparr>code = ''482913'', expiresAt = 300000\<rparr>)])))
      = CodeVerified
   \<and> fst (verify_code_handler (JStr ''+15551234567'') (JStr ''000000'') 1000
        [(JStr ''+15551234567'', \<lparr>code = ''482913'', expiresAt = 300000\<rparr>)])
      = Response 400 (ErrorBody ''Incorrect code'')"
proof -
  have h1: "Map_get (JStr ''+15551234567'')
       [(JStr ''+15551234567'', \<lparr>code = ''482913'', expiresAt = 300000\<rparr>)]
     = Some \<lparr>code = ''482913'', expiresAt = 300000\<rparr>" by simp
  have h2: "\<not> expiresAt \<lparr>code = ''482913'', expiresAt = 300000\<rparr> < 1000" by simp
  have h3: "JStr ''000000'' \<noteq> JStr (code \<lparr>code = ''482913'', expiresAt = 300000\<rparr>)" by simp
  from C2_mismatch_keeps_entry [OF h1 h2 h3, of 300000] h1 h2 h3 show ?thesis
    by (simp add: verify_def)
qed

theorem C3_invalid_or_expired_witness:
  "(Map_get (JStr ''+15551234567'')
       [(JStr ''+15551234567'', \<lparr>code = ''482913'', expiresAt = 300000\<rparr>)] = None
    \<or> (\<exists>stored. Map_get (JStr ''+15551234567'')
           [(JStr ''+15551234567'', \<lparr>code = ''482913'', expiresAt = 300000\<rparr>)] = Some stored
         \<and> expiresAt stored < 300001))
   \<and> verify (JStr ''+15551234567'') (JStr ''482913'') 300001
        [(JStr ''+15551234567'', \<lparr>code = ''482913'', expiresAt = 300000\<rparr>)]
      = (InvalidOrExpired, [(JStr ''+15551234567'', \<lparr>code = ''482913'', expiresAt = 300000\<rparr>)])
   \<and> fst (verify (JStr ''+15551234567'') (JStr ''482913'') 300001
        (sweep 0 [(JStr ''+15551234567'', \<lparr>code = ''482913'', expiresAt = 300000\<rparr>)]))
      = InvalidOrExpired
   \<and> verify_code_handler (JStr ''+15551234567'') (JStr ''482913'') 300001
        [(JStr ''+15551234567'', \<lparr>code = ''482913'', expiresAt = 300000\<rparr>)]
      = (Response 400 (ErrorBody ''Invalid or expired code''),
         [(JStr ''+15551234567'', \<lparr>code = ''482913'', expiresAt = 300000\<rparr>)])"
proof -
  have h: "Map_get (JStr ''+15551234567'')
       [(JStr ''+15551234567'', \<lparr>code = ''482913'', expiresAt = 300000\<rparr>)] = None
    \<or> (\<exists>stored. Map_get (JStr ''+15551234567'')
           [(JStr ''+15551234567'', \<lparr>code = ''482913'', expiresAt = 300000\<rparr>)] = Some stored
         \<and> expiresAt stored < 300001)" by simp
  from C3_invalid_or_expired [OF h, of "JStr ''482913''" 0] h show ?thesis
    by (simp add: Map_keys_def)
qed

section \<open>One entry per phone number, and the sweep\<close>

lemma entries_for_absent: "q \<notin> set (Map_keys s) \<Longrightarrow> entries_for q s = 0"
  by (induction s) (auto simp: entries_for_def Map_keys_def)

lemma entries_for_distinct: "distinct (Map_keys s) \<Longrightarrow> entries_for q s \<le> 1"
proof (induction s)
  case Nil
  then show ?case by (simp add: entries_for_def)
next
  case (Cons x s)
  obtain a b where x: "x = (a, b)" by (cases x)
  from Cons.prems x have d: "distinct (Map_keys s)" and a: "a \<notin> set (Map_keys s)"
    by (simp_all add: Map_keys_def)
  show ?case
  proof (cases "a = q")
    case True
    with a have "entries_for q s = 0" by (simp add: entries_for_absent)
    with True x show ?thesis by (simp add: entries_for_def)
  next
    case False
    with Cons.IH [OF d] x show ?thesis by (simp add: entries_for_def)
  qed
qed

lemma distinct_reachable: "distinct (Map_keys (run ops []))"
  by (rule distinct_run) (simp add: Map_keys_def)

text \<open>
  Nothing makes the second code differ from the first: when the random source returns the
  same value twice, both issues yield the same code, and a check of the first code is
  accepted after the second issue.
\<close>

theorem C4_reissue_counterexample:
  "fst (issue (JStr ''+15551234567'') 0 0 []) = ''100000''
   \<and> fst (issue (JStr ''+15551234567'') 0 1000 (snd (issue (JStr ''+15551234567'') 0 0 [])))
       = ''100000''
   \<and> fst (verify (JStr ''+15551234567'')
         (JStr (fst (issue (JStr ''+15551234567'') 0 0 []))) 2000
         (snd (issue (JStr ''+15551234567'') 0 1000 (snd (issue (JStr ''+15551234567'') 0 0 [])))))
       = CodeVerified"
  by (simp add: issue_def Let_def verify_def generate_code_def binary64_eval Number_toString_def digits_eval)

text \<open>
  C4. Whatever operations have run since the map was created empty, it holds at
  most one entry for a phone number. When a code \<open>c1\<close> is issued for \<open>p\<close> and later a code
  \<open>c2\<close>, the entry for \<open>p\<close> is the second one: a check for \<open>p\<close> is accepted exactly when
  the supplied value is the string \<open>c2\<close> and the second code has not expired. So a check of
  \<open>c1\<close> is rejected whenever \<open>c1\<close> differs from \<open>c2\<close>.
\<close>

theorem C4_one_entry_and_reissue:
  assumes first: "issue p r1 t1 s = (c1, s1)"
    and second: "issue p r2 t2 (run between s1) = (c2, s2)"
  shows "entries_for q (run ops []) \<le> 1
       \<and> Map_get p s2 = Some \<lparr>code = c2, expiresAt = t2 + 5 * 60 * 1000\<rparr>
       \<and> (fst (verify p supplied now s2) = CodeVerified
            \<longleftrightarrow> supplied = JStr c2 \<and> now \<le> t2 + 5 * 60 * 1000)
       \<and> (c1 \<noteq> c2 \<longrightarrow> fst (verify p (JStr c1) now s2) \<noteq> CodeVerified)"
proof -
  have one: "entries_for q (run ops []) \<le> 1"
    by (rule entries_for_distinct) (rule distinct_reachable)
  from second have stored: "Map_get p s2 = Some \<lparr>code = c2, expiresAt = t2 + 5 * 60 * 1000\<rparr>"
    by (auto simp: issue_def Let_def Map_get_set)
  then have only: "\<And>x. fst (verify p x now s2) = CodeVerified
      \<longleftrightarrow> x = JStr c2 \<and> now \<le> t2 + 5 * 60 * 1000"
    by (auto simp: verify_def)
  then have "c1 \<noteq> c2 \<longrightarrow> fst (verify p (JStr c1) now s2) \<noteq> CodeVerified" by simp
  with one stored only show ?thesis by blast
qed

theorem C4_one_entry_and_reissue_witness:
  "issue (JStr ''+15551234567'') 0 0 []
     = (''100000'', [(JStr ''+15551234567'', \<lparr>code = ''100000'', expiresAt = 300000\<rparr>)])
   \<and> issue (JStr ''+15551234567'') (1 / 2) 1000
       (run [Sweep 500] [(JStr ''+15551234567'', \<lparr>code = ''100000'', expiresAt = 300000\<rparr>)])
     = (''550000'', [(JStr ''+15551234567'', \<lparr>code = ''550000'', expiresAt = 301000\<rparr>)])
   \<and> entries_for (JStr ''+15551234567'')
        (run [Issue (JStr ''+15551234567'') 0 0, Issue (JStr ''+15551234567'') (1 / 2) 1000] []) \<le> 1
   \<and> fst (verify (JStr ''+15551234567'') (JStr ''550000'') 2000
        [(JStr ''+15551234567'', \<lparr>code = ''550000'', expiresAt = 301000\<rparr>)]) = CodeVerified
   \<and> fst (verify (JStr ''+15551234567'') (JStr ''100000'') 2000
        [(JStr ''+15551234567'', \<lparr>code = ''550000'', expiresAt = 301000\<rparr>)]) \<noteq> CodeVerified"
proof -
  have h1: "issue (JStr ''+15551234567'') 0 0 []
     = (''100000'', [(JStr ''+15551234567'', \<lparr>code = ''100000'', expiresAt = 300000\<rparr>)])"
    by (simp add: issue_def Let_def generate_code_def binary64_eval Number_toString_def digits_eval)
  have h2: "issue (JStr ''+15551234567'') (1 / 2) 1000
       (run [Sweep 500] [(JStr ''+15551234567'', \<lparr>code = ''100000'', expiresAt = 300000\<rparr>)])
     = (''550000'', [(JStr ''+15551234567'', \<lparr>code = ''550000'', expiresAt = 301000\<rparr>)])"
    by (simp add: issue_def Let_def sweep_def generate_code_def binary64_eval Number_toString_def digits_eval)
  have a: "fst (verify (JStr ''+15551234567'') (JStr ''550000'') 2000
        [(JStr ''+15551234567'', \<lparr>code = ''550000'', expiresAt = 301000\<rparr>)]) = CodeVerified"
    using C4_one_entry_and_reissue [OF h1 h2, of _ _ "JStr ''550000''" 2000] by simp
  have b: "fst (verify (JStr ''+15551234567'') (JStr ''100000'') 2000
        [(JStr ''+15551234567'', \<lparr>code = ''550000'', expiresAt = 301000\<rparr>)]) \<noteq> CodeVerified"
    using C4_one_entry_and_reissue [OF h1 h2, of _ _ _ 2000] by simp
  have c: "entries_for (JStr ''+15551234567'')
        (run [Issue (JStr ''+15551234567'') 0 0, Issue (JStr ''+15551234567'') (1 / 2) 1000] []) \<le> 1"
    using C4_one_entry_and_reissue [OF h1 h2] by blast
  from h1 h2 a b c show ?thesis by blast
qed

text \<open>
  C5. One run of the sweep at time \<open>now\<close> keeps, in their order and with their code and
  \<open>expiresAt\<close>, exactly the entries whose \<open>expiresAt\<close> is not before \<open>now\<close>, and removes the
  others; looking a phone number up afterwards finds its entry if and only if it was there
  and had not expired. Nothing in this depends on how the map came to be.
\<close>

theorem C5_sweep_correct:
  assumes "distinct (Map_keys s)"
  shows "sweep now s = filter (\<lambda>(phone, data). \<not> expiresAt data < now) s
       \<and> Map_get phone (sweep now s) =
           (case Map_get phone s of
              None \<Rightarrow> None
            | Some data \<Rightarrow> if expiresAt data < now then None else Some data)"
proof -
  from assms have "sweep now s = filter (\<lambda>(phone, data). \<not> expiresAt data < now) s"
    by (rule sweep_filter)
  moreover from assms have "Map_get phone (sweep now s) =
           (case Map_get phone s of
              None \<Rightarrow> None
            | Some data \<Rightarrow> if expiresAt data < now then None else Some data)"
    by (rule Map_get_sweep)
  ultimately show ?thesis by (rule conjI)
qed

theorem C5_sweep_correct_witness:
  "distinct (Map_keys
     [(JStr ''+1555'', \<lparr>code = ''111111'', expiresAt = 5\<rparr>),
      (JStr ''+1666'', \<lparr>code = ''222222'', expiresAt = 10\<rparr>),
      (JStr ''+1777'', \<lparr>code = ''333333'', expiresAt = 20\<rparr>)])
   \<and> sweep 10
     [(JStr ''+1555'', \<lparr>code = ''111111'', expiresAt = 5\<rparr>),
      (JStr ''+1666'', \<lparr>code = ''222222'', expiresAt = 10\<rparr>),
      (JStr ''+1777'', \<lparr>code = ''333333'', expiresAt = 20\<rparr>)]
     = [(JStr ''+1666'', \<lparr>code = ''222222'', expiresAt = 10\<rparr>),
        (JStr ''+1777'', \<lparr>code = ''333333'', expiresAt = 20\<rparr>)]"
proof -
  have h: "distinct (Map_keys
     [(JStr ''+1555'', \<lparr>code = ''111111'', expiresAt = 5\<rparr>),
      (JStr ''+1666'', \<lparr>code = ''222222'', expiresAt = 10\<rparr>),
      (JStr ''+1777'', \<lparr>code = ''333333'', expiresAt = 20\<rparr>)])"
    by (simp add: Map_keys_def)
  from C5_sweep_correct [OF h, of 10] h show ?thesis by simp
qed

section \<open>The code, the expiry boundary and the frame\<close>

lemma issue_result:
  "issue p r now s =
     (generate_code r, Map_set p \<lparr>code = generate_code r, expiresAt = now + 300000\<rparr> s)"
  by (simp add: issue_def Let_def)

text \<open>
  C6. For every value \<open>r\<close> the random source may return, a binary64 value with
  \<open>0 \<le> r < 1\<close>, the number \<^verbatim>\<open>Math.floor(100000 + r * 900000)\<close>, computed with both
  roundings, lies between 100000 and 999999; the issued code is its decimal string, which
  has exactly six characters, all of them digits, and reads back as that number; the stored
  entry holds this code and expires 300000 ms after the time of issue.
\<close>

theorem C6_code_range_and_expiry:
  assumes "is_binary64 r" and "0 \<le> r" and "r < 1"
  shows "100000 \<le> code_number r
       \<and> code_number r \<le> 999999
       \<and> fst (issue p r now s) = Number_toString (code_number r)
       \<and> length (fst (issue p r now s)) = 6
       \<and> list_all is_digit (fst (issue p r now s))
       \<and> int (decimal_value (fst (issue p r now s))) = code_number r
       \<and> Map_get p (snd (issue p r now s))
           = Some \<lparr>code = fst (issue p r now s), expiresAt = now + 300000\<rparr>"
proof -
  define n where "n = code_number r"
  define c where "c = fst (issue p r now s)"
  from assms have lo: "100000 \<le> n" and hi: "n \<le> 999999"
    unfolding n_def by (rule code_number_range)+
  have str: "c = Number_toString n"
    by (simp add: c_def issue_result generate_code_def n_def)
  from lo have "Number_toString n = digits (nat n)" by (simp add: Number_toString_def)
  with str have c: "c = digits (nat n)" by simp
  from lo hi have "length (digits (nat n)) = 6" by (intro length_digits_6) simp_all
  then have len: "length c = 6" by (simp only: c)
  have dig: "list_all is_digit c" unfolding c by (rule digits_all_digits)
  from lo have val: "int (decimal_value c) = n" unfolding c by (simp add: decimal_value_digits)
  have stored: "Map_get p (snd (issue p r now s)) = Some \<lparr>code = c, expiresAt = now + 300000\<rparr>"
    by (simp add: c_def issue_result Map_get_set)
  from lo hi str len dig val stored show ?thesis unfolding c_def n_def by blast
qed

theorem C6_code_range_and_expiry_witness:
  "is_binary64 (123183457807755 / 2 ^ 52)
   \<and> (0 :: real) \<le> 123183457807755 / 2 ^ 52 \<and> (123183457807755 / 2 ^ 52 :: real) < 1
   \<and> code_number (123183457807755 / 2 ^ 52) = 124617
   \<and> fst (issue (JStr ''+15551234567'') (123183457807755 / 2 ^ 52) 1700000000000 []) = ''124617''
   \<and> length (fst (issue (JStr ''+15551234567'') (123183457807755 / 2 ^ 52) 1700000000000 [])) = 6
   \<and> Map_get (JStr ''+15551234567'')
        (snd (issue (JStr ''+15551234567'') (123183457807755 / 2 ^ 52) 1700000000000 []))
       = Some \<lparr>code = ''124617'', expiresAt = 1700000300000\<rparr>"
proof -
  have h0: "is_binary64 (123183457807755 / 2 ^ 52)"
    by (simp add: is_binary64_def binary64_eval Let_def)
  have h1: "(0 :: real) \<le> 123183457807755 / 2 ^ 52" by simp
  have h2: "(123183457807755 / 2 ^ 52 :: real) < 1" by simp
  note inst = C6_code_range_and_expiry [OF h0 h1 h2, of "JStr ''+15551234567''" 1700000000000 "[]"]
  have n: "code_number (123183457807755 / 2 ^ 52) = 124617"
    by (simp add: binary64_eval Let_def)
  have c: "fst (issue (JStr ''+15551234567'') (123183457807755 / 2 ^ 52) 1700000000000 [])
      = ''124617''"
    by (simp add: issue_result Let_def generate_code_def binary64_eval Number_toString_def digits_eval)
  from inst
  have l: "length (fst (issue (JStr ''+15551234567'') (123183457807755 / 2 ^ 52) 1700000000000 [])) = 6"
    by blast
  from inst have "Map_get (JStr ''+15551234567'')
        (snd (issue (JStr ''+15551234567'') (123183457807755 / 2 ^ 52) 1700000000000 []))
       = Some \<lparr>code = fst (issue (JStr ''+15551234567'') (123183457807755 / 2 ^ 52) 1700000000000 []),
               expiresAt = 1700000000000 + 300000\<rparr>"
    by blast
  then have m: "Map_get (JStr ''+15551234567'')
        (snd (issue (JStr ''+15551234567'') (123183457807755 / 2 ^ 52) 1700000000000 []))
       = Some \<lparr>code = ''124617'', expiresAt = 1700000300000\<rparr>"
    by (simp only: c) simp
  from h0 h1 h2 n c l m show ?thesis by blast
qed

text \<open>
  C9. The instant \<open>now = expiresAt\<close> still belongs to the life of an entry: a check with the
  stored code is accepted, the sweep keeps the entry, and a check after that sweep is
  accepted too. One millisecond later the check is rejected and the sweep removes the
  entry: both tests are the strict \<open>expiresAt < now\<close>.
\<close>

theorem C9_exact_expiry_boundary:
  assumes "distinct (Map_keys s)"
    and "Map_get p s = Some data"
    and "expiresAt data = now"
  shows "verify p (JStr (code data)) now s = (CodeVerified, Map_delete p s)
       \<and> Map_get p (sweep now s) = Some data
       \<and> fst (verify p (JStr (code data)) now (sweep now s)) = CodeVerified
       \<and> fst (verify p (JStr (code data)) (now + 1) s) = InvalidOrExpired
       \<and> Map_get p (sweep (now + 1) s) = None"
  using assms by (simp add: verify_def Map_get_sweep)

theorem C9_exact_expiry_boundary_witness:
  "distinct (Map_keys (snd (issue (JStr ''+15551234567'') 0 1000 [])))
   \<and> Map_get (JStr ''+15551234567'') (snd (issue (JStr ''+15551234567'') 0 1000 []))
       = Some \<lparr>code = ''100000'', expiresAt = 301000\<rparr>
   \<and> expiresAt \<lparr>code = ''100000'', expiresAt = 301000\<rparr> = 301000
   \<and> fst (verify (JStr ''+15551234567'') (JStr ''100000'') 301000
        (snd (issue (JStr ''+15551234567'') 0 1000 []))) = CodeVerified
   \<and> Map_get (JStr ''+15551234567'')
        (sweep 301000 (snd (issue (JStr ''+15551234567'') 0 1000 [])))
       = Some \<lparr>code = ''100000'', expiresAt = 301000\<rparr>"
proof -
  have s: "snd (issue (JStr ''+15551234567'') 0 1000 [])
      = [(JStr ''+15551234567'', \<lparr>code = ''100000'', expiresAt = 301000\<rparr>)]"
    by (simp add: issue_result Let_def generate_code_def binary64_eval Number_toString_def digits_eval)
  have h1: "distinct (Map_keys (snd (issue (JStr ''+15551234567'') 0 1000 [])))"
    by (simp add: s Map_keys_def)
  have h2: "Map_get (JStr ''+15551234567'') (snd (issue (JStr ''+15551234567'') 0 1000 []))
       = Some \<lparr>code = ''100000'', expiresAt = 301000\<rparr>"
    by (simp add: s)
  have h3: "expiresAt \<lparr>code = ''100000'', expiresAt = 301000\<rparr> = 301000" by simp
  from C9_exact_expiry_boundary [OF h1 h2 h3] h1 h2 h3 show ?thesis by simp
qed

lemma Map_get_step_cases:
  assumes "distinct (Map_keys s)"
  shows "Map_get q (step operation s) = Map_get q s
       \<or> Map_get q (step operation s) = None
       \<or> (\<exists>r now. operation = Issue q r now
            \<and> Map_get q (step operation s)
                = Some \<lparr>code = generate_code r, expiresAt = now + 5 * 60 * 1000\<rparr>)"
proof (cases operation)
  case (Issue p r now)
  then show ?thesis by (simp add: issue_def Let_def Map_get_set)
next
  case (Verify p supplied now)
  have "Map_get q (Map_delete p s) = Map_get q s \<or> Map_get q (Map_delete p s) = None"
    using assms by (cases "q = p") (simp_all add: Map_get_delete_same Map_get_delete_other)
  with Verify show ?thesis by (auto simp: verify_def split: option.splits)
next
  case (Sweep now)
  with assms show ?thesis by (simp add: Map_get_sweep split: option.splits)
qed

text \<open>
  C10. Issuing a code for \<open>p\<close> and checking a code for \<open>p\<close> leave the entry of every other
  phone number \<open>q\<close> as it was. The entry an issue stores for \<open>p\<close> is a whole new one (the
  new code, the new expiry). After a check, \<open>p\<close> has the entry it had or none; after a
  sweep, every number has the entry it had or none. In general, after any one operation a
  number has the entry it had, or none, or the whole entry that an issue for this number
  has just stored: no operation changes one field of an entry.
\<close>

theorem C10_frame:
  assumes "distinct (Map_keys s)"
  shows "(q \<noteq> p \<longrightarrow> Map_get q (snd (issue p r now s)) = Map_get q s)
       \<and> (q \<noteq> p \<longrightarrow> Map_get q (snd (verify p supplied now s)) = Map_get q s)
       \<and> Map_get p (snd (issue p r now s))
           = Some \<lparr>code = fst (issue p r now s), expiresAt = now + 5 * 60 * 1000\<rparr>
       \<and> (Map_get p (snd (verify p supplied now s)) = Map_get p s
            \<or> Map_get p (snd (verify p supplied now s)) = None)
       \<and> (Map_get q (sweep now s) = Map_get q s \<or> Map_get q (sweep now s) = None)
       \<and> (Map_get q (step operation s) = Map_get q s
            \<or> Map_get q (step operation s) = None
            \<or> (\<exists>r' now'. operation = Issue q r' now'
                 \<and> Map_get q (step operation s)
                     = Some \<lparr>code = generate_code r', expiresAt = now' + 5 * 60 * 1000\<rparr>))"
proof -
  have a: "q \<noteq> p \<longrightarrow> Map_get q (snd (issue p r now s)) = Map_get q s"
    by (simp add: issue_result Map_get_set)
  have b: "q \<noteq> p \<longrightarrow> Map_get q (snd (verify p supplied now s)) = Map_get q s"
    by (simp add: verify_def Map_get_delete_other split: option.splits)
  have c: "Map_get p (snd (issue p r now s))
           = Some \<lparr>code = fst (issue p r now s), expiresAt = now + 5 * 60 * 1000\<rparr>"
    by (simp add: issue_result Map_get_set)
  have d: "Map_get p (snd (verify p supplied now s)) = Map_get p s
            \<or> Map_get p (snd (verify p supplied now s)) = None"
    using Map_get_step_cases [OF assms, of p "Verify p supplied now"] by auto
  have e: "Map_get q (sweep now s) = Map_get q s \<or> Map_get q (sweep now s) = None"
    using Map_get_step_cases [OF assms, of q "Sweep now"] by auto
  from a b c d e Map_get_step_cases [OF assms, of q operation] show ?thesis by blast
qed

theorem C10_frame_witness:
  "distinct (Map_keys
     [(JStr ''+1555'', \<lparr>code = ''111111'', expiresAt = 50\<rparr>),
      (JStr ''+1666'', \<lparr>code = ''222222'', expiresAt = 10\<rparr>)])
   \<and> Map_get (JStr ''+1666'') (snd (issue (JStr ''+1555'') 0 7
        [(JStr ''+1555'', \<lparr>code = ''111111'', expiresAt = 50\<rparr>),
         (JStr ''+1666'', \<lparr>code = ''222222'', expiresAt = 10\<rparr>)]))
       = Some \<lparr>code = ''222222'', expiresAt = 10\<rparr>
   \<and> Map_get (JStr ''+1666'') (snd (verify (JStr ''+1555'') (JStr ''111111'') 7
        [(JStr ''+1555'', \<lparr>code = ''111111'', expiresAt = 50\<rparr>),
         (JStr ''+1666'', \<lparr>code = ''222222'', expiresAt = 10\<rparr>)]))
       = Some \<lparr>code = ''222222'', expiresAt = 10\<rparr>
   \<and> Map_get (JStr ''+1555'') (snd (verify (JStr ''+1555'') (JStr ''111111'') 7
        [(JStr ''+1555'', \<lparr>code = ''111111'', expiresAt = 50\<rparr>),
         (JStr ''+1666'', \<lparr>code = ''222222'', expiresAt = 10\<rparr>)]))
       = None"
proof -
  have h: "distinct (Map_keys
     [(JStr ''+1555'', \<lparr>code = ''111111'', expiresAt = 50\<rparr>),
      (JStr ''+1666'', \<lparr>code = ''222222'', expiresAt = 10\<rparr>)])"
    by (simp add: Map_keys_def)
  have v: "Map_get (JStr ''+1555'') (snd (verify (JStr ''+1555'') (JStr ''111111'') 7
        [(JStr ''+1555'', \<lparr>code = ''111111'', expiresAt = 50\<rparr>),
         (JStr ''+1666'', \<lparr>code = ''222222'', expiresAt = 10\<rparr>)]))
       = None"
    by (simp add: verify_def)
  from C10_frame [OF h, of "JStr ''+1666''" "JStr ''+1555''" 0 7 "JStr ''111111''" "Sweep 0"]
  have "Map_get (JStr ''+1666'') (snd (issue (JStr ''+1555'') 0 7
        [(JStr ''+1555'', \<lparr>code = ''111111'', expiresAt = 50\<rparr>),
         (JStr ''+1666'', \<lparr>code = ''222222'', expiresAt = 10\<rparr>)]))
       = Some \<lparr>code = ''222222'', expiresAt = 10\<rparr>
   \<and> Map_get (JStr ''+1666'') (snd (verify (JStr ''+1555'') (JStr ''111111'') 7
        [(JStr ''+1555'', \<lparr>code = ''111111'', expiresAt = 50\<rparr>),
         (JStr ''+1666'', \<lparr>code = ''222222'', expiresAt = 10\<rparr>)]))
       = Some \<lparr>code = ''222222'', expiresAt = 10\<rparr>"
    by simp
  with h v show ?thesis by blast
qed

section \<open>Access control\<close>

lemma String_split_no_sep: "sep \<notin> set s \<Longrightarrow> String_split sep s = [s]"
  by (induction s) auto

lemma String_split_prefix:
  "sep \<notin> set a \<Longrightarrow> String_split sep (a @ sep # b) = a # String_split sep b"
  by (induction a) auto

lemma bearer_token_scheme:
  assumes "CHR '' '' \<notin> set scheme" and "CHR '' '' \<notin> set token"
  shows "bearer_token (Some (scheme @ CHR '' '' # token)) = Some token"
  using assms by (simp add: bearer_token_def element_at_def String_split_prefix String_split_no_sep)

lemma bearer_token_no_space:
  assumes "CHR '' '' \<notin> set h"
  shows "bearer_token (Some h) = (if h = [] then Some [] else None)"
  using assms by (simp add: bearer_token_def element_at_def String_split_no_sep)

text \<open>
  C8. Access control on the authenticated send route. The credential is what the middleware
  extracts: the second piece of the authorization header when it is split at spaces. With no
  header, or no such piece, or an empty one, the answer is 401 and the handler does not run.
  With a credential that \<^verbatim>\<open>jwt.verify\<close> rejects under the process-wide secret, the answer is
  403. With one it accepts, the decoded payload is stored in \<^verbatim>\<open>req.user\<close> and the
  route's answer is the handler's. A header \<open>scheme token\<close> (neither holding a space) yields
  \<open>token\<close>; a header without a space yields no credential.
\<close>

theorem C8_access_control:
  "(authorization req = None \<longrightarrow>
      whatsapp_send_route jwt_verify env twilioPhoneNumber client req
        = Response 401 (ErrorBody ''Access token required''))
   \<and> (bearer_token (authorization req) = None \<or> bearer_token (authorization req) = Some [] \<longrightarrow>
        authenticateToken jwt_verify env req
          = Answered (Response 401 (ErrorBody ''Access token required''))
      \<and> whatsapp_send_route jwt_verify env twilioPhoneNumber client req
          = Response 401 (ErrorBody ''Access token required''))
   \<and> (bearer_token (authorization req) = Some token \<and> token \<noteq> []
        \<and> jwt_verify token (JWT_SECRET env) = Inl err \<longrightarrow>
        authenticateToken jwt_verify env req
          = Answered (Response 403 (ErrorBody ''Invalid or expired token''))
      \<and> whatsapp_send_route jwt_verify env twilioPhoneNumber client req
          = Response 403 (ErrorBody ''Invalid or expired token''))
   \<and> (bearer_token (authorization req) = Some token \<and> token \<noteq> []
        \<and> jwt_verify token (JWT_SECRET env) = Inr payload \<longrightarrow>
        authenticateToken jwt_verify env req = Next (req\<lparr>user := Some payload\<rparr>)
      \<and> whatsapp_send_route jwt_verify env twilioPhoneNumber client req
          = send_message_handler twilioPhoneNumber client (body_to req) (body_body req))
   \<and> (CHR '' '' \<notin> set scheme \<and> CHR '' '' \<notin> set token \<longrightarrow>
        bearer_token (Some (scheme @ CHR '' '' # token)) = Some token)
   \<and> (CHR '' '' \<notin> set h \<longrightarrow> bearer_token (Some h) = (if h = [] then Some [] else None))"
proof -
  have a: "authorization req = None \<longrightarrow>
      whatsapp_send_route jwt_verify env twilioPhoneNumber client req
        = Response 401 (ErrorBody ''Access token required'')"
    by (simp add: whatsapp_send_route_def authenticateToken_def bearer_token_def)
  have b: "bearer_token (authorization req) = None \<or> bearer_token (authorization req) = Some [] \<longrightarrow>
        authenticateToken jwt_verify env req
          = Answered (Response 401 (ErrorBody ''Access token required''))
      \<and> whatsapp_send_route jwt_verify env twilioPhoneNumber client req
          = Response 401 (ErrorBody ''Access token required'')"
    by (auto simp: whatsapp_send_route_def authenticateToken_def)
  have c: "bearer_token (authorization req) = Some token \<and> token \<noteq> []
        \<and> jwt_verify token (JWT_SECRET env) = Inl err \<longrightarrow>
        authenticateToken jwt_verify env req
          = Answered (Response 403 (ErrorBody ''Invalid or expired token''))
      \<and> whatsapp_send_route jwt_verify env twilioPhoneNumber client req
          = Response 403 (ErrorBody ''Invalid or expired token'')"
    by (simp add: whatsapp_send_route_def authenticateToken_def)
  have d: "bearer_token (authorization req) = Some token \<and> token \<noteq> []
        \<and> jwt_verify token (JWT_SECRET env) = Inr payload \<longrightarrow>
        authenticateToken jwt_verify env req = Next (req\<lparr>user := Some payload\<rparr>)
      \<and> whatsapp_send_route jwt_verify env twilioPhoneNumber client req
          = send_message_handler twilioPhoneNumber client (body_to req) (body_body req)"
    by (simp add: whatsapp_send_route_def authenticateToken_def)
  have e: "CHR '' '' \<notin> set scheme \<and> CHR '' '' \<notin> set token \<longrightarrow>
        bearer_token (Some (scheme @ CHR '' '' # token)) = Some token"
    by (simp add: bearer_token_scheme)
  have f: "CHR '' '' \<notin> set h \<longrightarrow> bearer_token (Some h) = (if h = [] then Some [] else None)"
    using bearer_token_no_space [of h] by blast
  from a b c d e f show ?thesis by blast
qed

theorem C8_access_control_witness:
  "authorization (example_request None) = None
   \<and> whatsapp_send_route example_jwt_verify (Some ''s3cret'') ''+14155238886'' example_client
        (example_request None)
       = Response 401 (ErrorBody ''Access token required'')
   \<and> bearer_token (authorization (example_request (Some ''Bearer bad''))) = Some ''bad''
   \<and> example_jwt_verify ''bad'' (JWT_SECRET (Some ''s3cret'')) = Inl ''invalid signature''
   \<and> whatsapp_send_route example_jwt_verify (Some ''s3cret'') ''+14155238886'' example_client
        (example_request (Some ''Bearer bad''))
       = Response 403 (ErrorBody ''Invalid or expired token'')
   \<and> bearer_token (authorization (example_request (Some ''Bearer good''))) = Some ''good''
   \<and> example_jwt_verify ''good'' (JWT_SECRET (Some ''s3cret'')) = Inr ''alice''
   \<and> authenticateToken example_jwt_verify (Some ''s3cret'') (example_request (Some ''Bearer good''))
       = Next ((example_request (Some ''Bearer good''))\<lparr>user := Some ''alice''\<rparr>)
   \<and> whatsapp_send_route example_jwt_verify (Some ''s3cret'') ''+14155238886'' example_client
        (example_request (Some ''Bearer good''))
       = Response 200 (MessageSentBody ''SM1'' ''queued'')"
proof -
  have n: "authorization (example_request None) = None" by (simp add: example_request_def)
  have tb: "bearer_token (authorization (example_request (Some ''Bearer bad''))) = Some ''bad''"
    by (simp add: example_request_def bearer_token_def element_at_def)
  have vb: "example_jwt_verify ''bad'' (JWT_SECRET (Some ''s3cret'')) = Inl ''invalid signature''"
    by (simp add: example_jwt_verify_def JWT_SECRET_def)
  have tg: "bearer_token (authorization (example_request (Some ''Bearer good''))) = Some ''good''"
    by (simp add: example_request_def bearer_token_def element_at_def)
  have vg: "example_jwt_verify ''good'' (JWT_SECRET (Some ''s3cret'')) = Inr ''alice''"
    by (simp add: example_jwt_verify_def JWT_SECRET_def)
  have r401: "whatsapp_send_route example_jwt_verify (Some ''s3cret'') ''+14155238886''
        example_client (example_request None)
       = Response 401 (ErrorBody ''Access token required'')"
    using n C8_access_control [where req = "example_request None"] by blast
  have r403: "whatsapp_send_route example_jwt_verify (Some ''s3cret'') ''+14155238886''
        example_client (example_request (Some ''Bearer bad''))
       = Response 403 (ErrorBody ''Invalid or expired token'')"
    using tb vb C8_access_control [where req = "example_request (Some ''Bearer bad'')"
        and token = "''bad''" and jwt_verify = example_jwt_verify and env = "Some ''s3cret''"
        and err = "''invalid signature''"]
    by simp
  have ok: "authenticateToken example_jwt_verify (Some ''s3cret'')
        (example_request (Some ''Bearer good''))
       = Next ((example_request (Some ''Bearer good''))\<lparr>user := Some ''alice''\<rparr>)
      \<and> whatsapp_send_route example_jwt_verify (Some ''s3cret'') ''+14155238886''
        example_client (example_request (Some ''Bearer good''))
       = send_message_handler ''+14155238886'' example_client
           (body_to (example_request (Some ''Bearer good'')))
           (body_body (example_request (Some ''Bearer good'')))"
    using tg vg C8_access_control [where req = "example_request (Some ''Bearer good'')"
        and token = "''good''" and jwt_verify = example_jwt_verify and env = "Some ''s3cret''"
        and payload = "''alice''"]
    by simp
  have h: "send_message_handler ''+14155238886'' example_client
           (body_to (example_request (Some ''Bearer good'')))
           (body_body (example_request (Some ''Bearer good'')))
       = Response 200 (MessageSentBody ''SM1'' ''queued'')"
    by (simp add: send_message_handler_def example_request_def example_client_def)
  from n tb vb tg vg r401 r403 ok h show ?thesis by simp
qed

end
